theory Spec2Isabelle
  imports Main
begin

section \<open>Python values and the operations the request wrapper applies to them\<close>

text \<open>
  The request handed to \<^verbatim>\<open>RequestWrap\<close> is decoded JSON. The values modelled are
  the ones its fields take: integers, text, lists, dictionaries keyed by text, and
  \<^verbatim>\<open>None\<close>, together with the byte strings the collaborators produce; booleans and
  floating-point numbers are left out. A text value is a list of code points (one
  \<^typ>\<open>char\<close> stands for one code point), a bytes value a list of bytes; the
  conversions between the two are collaborators of the wrapper, not part of it.
\<close>

datatype val =
    VNone
  | VInt int
  | VStr string
  | VBytes string
  | VList "val list"
  | VDict "(string \<times> val) list"

text \<open>The exceptions the wrapper can meet. \<open>Raised\<close> stands for any other exception
  class a collaborator throws (a decoding error, for instance).\<close>

datatype error =
    KeyError
  | IndexError
  | TypeError
  | ValueError string
  | Raised string

text \<open>\<^verbatim>\<open>xs[i]\<close> on a sequence: a negative index counts from the end, anything outside
  the sequence raises \<^verbatim>\<open>IndexError\<close>.\<close>

definition py_index :: "'a list \<Rightarrow> int \<Rightarrow> error + 'a" where
  "py_index xs i =
     (if 0 \<le> i \<and> i < int (length xs) then Inr (xs ! nat i)
      else if i < 0 \<and> - int (length xs) \<le> i then Inr (xs ! nat (i + int (length xs)))
      else Inl IndexError)"

text \<open>\<^verbatim>\<open>obj[key]\<close>: a dictionary looks the key up (\<^verbatim>\<open>KeyError\<close> when absent, \<^verbatim>\<open>TypeError\<close>
  for an unhashable key), a sequence wants an integer index.\<close>

fun subscript :: "val \<Rightarrow> val \<Rightarrow> error + val" where
  "subscript (VDict d) (VStr k) = (case map_of d k of None \<Rightarrow> Inl KeyError | Some v \<Rightarrow> Inr v)"
| "subscript (VDict d) (VList ks) = Inl TypeError"
| "subscript (VDict d) (VDict ks) = Inl TypeError"
| "subscript (VDict d) k = Inl KeyError"
| "subscript (VList xs) (VInt i) = py_index xs i"
| "subscript (VStr s) (VInt i) =
     (case py_index s i of Inl e \<Rightarrow> Inl e | Inr c \<Rightarrow> Inr (VStr [c]))"
| "subscript (VBytes s) (VInt i) =
     (case py_index s i of Inl e \<Rightarrow> Inl e | Inr c \<Rightarrow> Inr (VInt (of_char c)))"
| "subscript obj k = Inl TypeError"

text \<open>A slice bound is clamped into the sequence after a negative bound has been
  counted from the end; \<^verbatim>\<open>None\<close> leaves the bound open.\<close>

definition slice_bound :: "nat \<Rightarrow> int \<Rightarrow> nat" where
  "slice_bound n i = (if i < 0 then nat (max 0 (i + int n)) else min n (nat i))"

definition py_slice :: "'a list \<Rightarrow> int \<Rightarrow> int \<Rightarrow> 'a list" where
  "py_slice xs lo hi =
     (let n = length xs; a = slice_bound n lo; b = slice_bound n hi
      in take (b - a) (drop a xs))"

fun slice_lower :: "nat \<Rightarrow> val \<Rightarrow> error + int" where
  "slice_lower n VNone = Inr 0"
| "slice_lower n (VInt i) = Inr i"
| "slice_lower n b = Inl TypeError"

fun slice_upper :: "nat \<Rightarrow> val \<Rightarrow> error + int" where
  "slice_upper n VNone = Inr (int n)"
| "slice_upper n (VInt i) = Inr i"
| "slice_upper n b = Inl TypeError"

definition slice_of :: "'a list \<Rightarrow> val \<Rightarrow> val \<Rightarrow> error + 'a list" where
  "slice_of xs lo hi =
     (case slice_lower (length xs) lo of Inl e \<Rightarrow> Inl e
      | Inr a \<Rightarrow>
     (case slice_upper (length xs) hi of Inl e \<Rightarrow> Inl e
      | Inr b \<Rightarrow> Inr (py_slice xs a b)))"

fun getslice :: "val \<Rightarrow> val \<Rightarrow> val \<Rightarrow> error + val" where
  "getslice (VStr s) lo hi = (case slice_of s lo hi of Inl e \<Rightarrow> Inl e | Inr r \<Rightarrow> Inr (VStr r))"
| "getslice (VBytes s) lo hi = (case slice_of s lo hi of Inl e \<Rightarrow> Inl e | Inr r \<Rightarrow> Inr (VBytes r))"
| "getslice (VList xs) lo hi = (case slice_of xs lo hi of Inl e \<Rightarrow> Inl e | Inr r \<Rightarrow> Inr (VList r))"
| "getslice obj lo hi = Inl TypeError"

text \<open>\<^verbatim>\<open>a - b\<close> and \<^verbatim>\<open>a + b\<close>: integers subtract; integers add and like sequences
  concatenate; every other pairing is a \<^verbatim>\<open>TypeError\<close>.\<close>

fun py_sub :: "val \<Rightarrow> val \<Rightarrow> error + val" where
  "py_sub (VInt a) (VInt b) = Inr (VInt (a - b))"
| "py_sub a b = Inl TypeError"

fun py_add :: "val \<Rightarrow> val \<Rightarrow> error + val" where
  "py_add (VInt a) (VInt b) = Inr (VInt (a + b))"
| "py_add (VStr a) (VStr b) = Inr (VStr (a @ b))"
| "py_add (VBytes a) (VBytes b) = Inr (VBytes (a @ b))"
| "py_add (VList a) (VList b) = Inr (VList (a @ b))"
| "py_add a b = Inl TypeError"

section \<open>Collaborators\<close>

text \<open>
  \<^verbatim>\<open>request_wrap.py\<close> imports its helpers from \<^verbatim>\<open>ycmd.utils\<close>,
  \<^verbatim>\<open>ycmd.identifier_utils\<close> and \<^verbatim>\<open>ycmd.request_validation\<close>. They are parameters of
  the model: each is a function of its arguments that returns a value or raises.
\<close>

record lib =
  ByteOffsetToCodepointOffset :: "val \<Rightarrow> val \<Rightarrow> error + val"
  CodepointOffsetToByteOffset :: "val \<Rightarrow> val \<Rightarrow> error + val"
  ToUnicode :: "val \<Rightarrow> error + val"
  ToBytes :: "val \<Rightarrow> error + val"
  SplitLines :: "val \<Rightarrow> error + val"
  StartOfLongestIdentifierEndingAtIndex :: "val \<Rightarrow> val \<Rightarrow> val \<Rightarrow> error + val"
  EnsureRequestValid :: "(string \<rightharpoonup> val) \<Rightarrow> error + unit"

section \<open>The module-level functions\<close>

definition CompletionStartCodepoint :: "lib \<Rightarrow> val \<Rightarrow> val \<Rightarrow> val \<Rightarrow> error + val" where
  "CompletionStartCodepoint L line_value column_num filetype =
     (case ByteOffsetToCodepointOffset L line_value column_num of Inl e \<Rightarrow> Inl e
      | Inr codepoint_column_num \<Rightarrow>
     (case ToUnicode L line_value of Inl e \<Rightarrow> Inl e
      | Inr unicode_line_value \<Rightarrow>
     (case py_sub codepoint_column_num (VInt 1) of Inl e \<Rightarrow> Inl e
      | Inr idx \<Rightarrow>
     (case StartOfLongestIdentifierEndingAtIndex L unicode_line_value idx filetype of
        Inl e \<Rightarrow> Inl e
      | Inr start \<Rightarrow> py_add start (VInt 1)))))"

definition CompletionStartColumn :: "lib \<Rightarrow> val \<Rightarrow> val \<Rightarrow> val \<Rightarrow> error + val" where
  "CompletionStartColumn L line_value column_num filetype =
     (case ToUnicode L line_value of Inl e \<Rightarrow> Inl e
      | Inr unicode_line_value \<Rightarrow>
     (case CompletionStartCodepoint L line_value column_num filetype of Inl e \<Rightarrow> Inl e
      | Inr codepoint \<Rightarrow> CodepointOffsetToByteOffset L unicode_line_value codepoint))"

section \<open>The class \<^verbatim>\<open>RequestWrap\<close>\<close>

record RequestWrap =
  request :: "string \<rightharpoonup> val"
  cached_computed :: "string \<rightharpoonup> val"

type_synonym 'a result = "(error + 'a) \<times> RequestWrap"

definition init :: "lib \<Rightarrow> (string \<rightharpoonup> val) \<Rightarrow> bool \<Rightarrow> error + RequestWrap" where
  "init L req validate =
     (if validate
      then (case EnsureRequestValid L req of
              Inl e \<Rightarrow> Inl e
            | Inr u \<Rightarrow> Inr \<lparr>request = req, cached_computed = Map.empty\<rparr>)
      else Inr \<lparr>request = req, cached_computed = Map.empty\<rparr>)"

text \<open>The registry \<^verbatim>\<open>_computed_key\<close>: each key names its getter and, for the two
  writable keys, its setter.\<close>

datatype getter =
    G_CurrentLine
  | G_GetCompletionStartCodepoint
  | G_column_codepoint
  | G_line_bytes
  | G_GetCompletionStartColumn
  | G_Query
  | G_Filetypes
  | G_FirstFiletype

datatype setter = S_SetCompletionStartCodepoint | S_SetCompletionStartColumn

definition computed_key :: "string \<rightharpoonup> getter \<times> setter option" where
  "computed_key = map_of
     [ (''line_value'', (G_CurrentLine, None)),
       (''start_codepoint'', (G_GetCompletionStartCodepoint, Some S_SetCompletionStartCodepoint)),
       (''column_codepoint'', (G_column_codepoint, None)),
       (''line_bytes'', (G_line_bytes, None)),
       (''start_column'', (G_GetCompletionStartColumn, Some S_SetCompletionStartColumn)),
       (''query'', (G_Query, None)),
       (''filetypes'', (G_Filetypes, None)),
       (''first_filetype'', (G_FirstFiletype, None)) ]"

text \<open>\<^verbatim>\<open>self._request[ key ]\<close>\<close>

definition request_item :: "RequestWrap \<Rightarrow> string \<Rightarrow> error + val" where
  "request_item self key = (case request self key of None \<Rightarrow> Inl KeyError | Some v \<Rightarrow> Inr v)"

text \<open>\<^verbatim>\<open>_CurrentLine\<close> reads the raw request only.\<close>

definition CurrentLine :: "lib \<Rightarrow> RequestWrap \<Rightarrow> val result" where
  "CurrentLine L self =
     (case request_item self ''filepath'' of Inl e \<Rightarrow> (Inl e, self)
      | Inr current_file \<Rightarrow>
     (case request_item self ''file_data'' of Inl e \<Rightarrow> (Inl e, self)
      | Inr file_data \<Rightarrow>
     (case subscript file_data current_file of Inl e \<Rightarrow> (Inl e, self)
      | Inr entry \<Rightarrow>
     (case subscript entry (VStr ''contents'') of Inl e \<Rightarrow> (Inl e, self)
      | Inr contents \<Rightarrow>
     (case SplitLines L contents of Inl e \<Rightarrow> (Inl e, self)
      | Inr lines \<Rightarrow>
     (case request_item self ''line_num'' of Inl e \<Rightarrow> (Inl e, self)
      | Inr line_num \<Rightarrow>
     (case py_sub line_num (VInt 1) of Inl e \<Rightarrow> (Inl e, self)
      | Inr idx \<Rightarrow> (subscript lines idx, self))))))))"

text \<open>The rank of a key bounds the depth of the getters it sets off: a getter only
  asks for keys of a smaller rank.\<close>

fun getter_rank :: "getter \<Rightarrow> nat" where
  "getter_rank G_CurrentLine = 1"
| "getter_rank G_Filetypes = 1"
| "getter_rank G_line_bytes = 2"
| "getter_rank G_FirstFiletype = 2"
| "getter_rank G_column_codepoint = 3"
| "getter_rank G_GetCompletionStartCodepoint = 3"
| "getter_rank G_GetCompletionStartColumn = 3"
| "getter_rank G_Query = 4"

definition key_rank :: "string \<Rightarrow> nat" where
  "key_rank key = (case computed_key key of None \<Rightarrow> 0 | Some (g, s) \<Rightarrow> getter_rank g)"

text \<open>\<^verbatim>\<open>__getitem__\<close> and the getters that call back into it.\<close>

function
  getitem :: "lib \<Rightarrow> RequestWrap \<Rightarrow> string \<Rightarrow> val result" and
  call_getter :: "lib \<Rightarrow> RequestWrap \<Rightarrow> getter \<Rightarrow> val result" and
  column_codepoint_getter :: "lib \<Rightarrow> RequestWrap \<Rightarrow> val result" and
  line_bytes_getter :: "lib \<Rightarrow> RequestWrap \<Rightarrow> val result" and
  GetCompletionStartColumn :: "lib \<Rightarrow> RequestWrap \<Rightarrow> val result" and
  GetCompletionStartCodepoint :: "lib \<Rightarrow> RequestWrap \<Rightarrow> val result" and
  Query :: "lib \<Rightarrow> RequestWrap \<Rightarrow> val result" and
  FirstFiletype :: "lib \<Rightarrow> RequestWrap \<Rightarrow> val result" and
  Filetypes :: "lib \<Rightarrow> RequestWrap \<Rightarrow> val result"
where
  "getitem L self key =
     (case cached_computed self key of
        Some v \<Rightarrow> (Inr v, self)
      | None \<Rightarrow>
         (case computed_key key of
            Some (g, s) \<Rightarrow>
              (case call_getter L self g of
                 (Inl e, self') \<Rightarrow> (Inl e, self')
               | (Inr v, self') \<Rightarrow>
                   (Inr v, self'\<lparr>cached_computed := (cached_computed self')(key \<mapsto> v)\<rparr>))
          | None \<Rightarrow> (request_item self key, self)))"
| "call_getter L self g =
     (case g of
        G_CurrentLine \<Rightarrow> CurrentLine L self
      | G_GetCompletionStartCodepoint \<Rightarrow> GetCompletionStartCodepoint L self
      | G_column_codepoint \<Rightarrow> column_codepoint_getter L self
      | G_line_bytes \<Rightarrow> line_bytes_getter L self
      | G_GetCompletionStartColumn \<Rightarrow> GetCompletionStartColumn L self
      | G_Query \<Rightarrow> Query L self
      | G_Filetypes \<Rightarrow> Filetypes L self
      | G_FirstFiletype \<Rightarrow> FirstFiletype L self)"
| "column_codepoint_getter L self =
     (case getitem L self ''line_bytes'' of (Inl e, s1) \<Rightarrow> (Inl e, s1)
      | (Inr line_bytes, s1) \<Rightarrow>
     (case getitem L s1 ''column_num'' of (Inl e, s2) \<Rightarrow> (Inl e, s2)
      | (Inr column_num, s2) \<Rightarrow> (ByteOffsetToCodepointOffset L line_bytes column_num, s2)))"
| "line_bytes_getter L self =
     (case getitem L self ''line_value'' of (Inl e, s1) \<Rightarrow> (Inl e, s1)
      | (Inr line_value, s1) \<Rightarrow> (ToBytes L line_value, s1))"
| "GetCompletionStartColumn L self =
     (case getitem L self ''line_value'' of (Inl e, s1) \<Rightarrow> (Inl e, s1)
      | (Inr line_value, s1) \<Rightarrow>
     (case getitem L s1 ''column_num'' of (Inl e, s2) \<Rightarrow> (Inl e, s2)
      | (Inr column_num, s2) \<Rightarrow>
     (case getitem L s2 ''first_filetype'' of (Inl e, s3) \<Rightarrow> (Inl e, s3)
      | (Inr first_filetype, s3) \<Rightarrow>
          (CompletionStartColumn L line_value column_num first_filetype, s3))))"
| "GetCompletionStartCodepoint L self =
     (case getitem L self ''line_value'' of (Inl e, s1) \<Rightarrow> (Inl e, s1)
      | (Inr line_value, s1) \<Rightarrow>
     (case getitem L s1 ''column_num'' of (Inl e, s2) \<Rightarrow> (Inl e, s2)
      | (Inr column_num, s2) \<Rightarrow>
     (case getitem L s2 ''first_filetype'' of (Inl e, s3) \<Rightarrow> (Inl e, s3)
      | (Inr first_filetype, s3) \<Rightarrow>
          (CompletionStartCodepoint L line_value column_num first_filetype, s3))))"
| "Query L self =
     (case getitem L self ''line_value'' of (Inl e, s1) \<Rightarrow> (Inl e, s1)
      | (Inr line_value, s1) \<Rightarrow>
     (case getitem L s1 ''start_codepoint'' of (Inl e, s2) \<Rightarrow> (Inl e, s2)
      | (Inr start_codepoint, s2) \<Rightarrow>
     (case py_sub start_codepoint (VInt 1) of Inl e \<Rightarrow> (Inl e, s2)
      | Inr lo \<Rightarrow>
     (case getitem L s2 ''column_codepoint'' of (Inl e, s3) \<Rightarrow> (Inl e, s3)
      | (Inr column_codepoint, s3) \<Rightarrow>
     (case py_sub column_codepoint (VInt 1) of Inl e \<Rightarrow> (Inl e, s3)
      | Inr hi \<Rightarrow> (getslice line_value lo hi, s3))))))"
| "FirstFiletype L self =
     (case getitem L self ''filetypes'' of
        (Inl e, s1) \<Rightarrow>
          (if e = KeyError \<or> e = IndexError then (Inr VNone, s1) else (Inl e, s1))
      | (Inr filetypes, s1) \<Rightarrow>
          (case subscript filetypes (VInt 0) of
             Inl e \<Rightarrow> (if e = KeyError \<or> e = IndexError then (Inr VNone, s1) else (Inl e, s1))
           | Inr v \<Rightarrow> (Inr v, s1)))"
| "Filetypes L self =
     (case getitem L self ''filepath'' of (Inl e, s1) \<Rightarrow> (Inl e, s1)
      | (Inr path, s1) \<Rightarrow>
     (case getitem L s1 ''file_data'' of (Inl e, s2) \<Rightarrow> (Inl e, s2)
      | (Inr file_data, s2) \<Rightarrow>
     (case subscript file_data path of Inl e \<Rightarrow> (Inl e, s2)
      | Inr entry \<Rightarrow> (subscript entry (VStr ''filetypes''), s2))))"
  by pat_completeness auto

termination getitem
  apply (relation "measure (\<lambda>x. case x of
      Inl (Inl (Inl (L, self, key))) \<Rightarrow> 3 * key_rank key + 2
    | Inl (Inl (Inr (L, self, g))) \<Rightarrow> 3 * getter_rank g + 1
    | Inl (Inr (Inl (L, self))) \<Rightarrow> 3 * getter_rank G_column_codepoint
    | Inl (Inr (Inr (L, self))) \<Rightarrow> 3 * getter_rank G_line_bytes
    | Inr (Inl (Inl (L, self))) \<Rightarrow> 3 * getter_rank G_GetCompletionStartColumn
    | Inr (Inl (Inr (L, self))) \<Rightarrow> 3 * getter_rank G_GetCompletionStartCodepoint
    | Inr (Inr (Inl (L, self))) \<Rightarrow> 3 * getter_rank G_Query
    | Inr (Inr (Inr (Inl (L, self)))) \<Rightarrow> 3 * getter_rank G_FirstFiletype
    | Inr (Inr (Inr (Inr (L, self)))) \<Rightarrow> 3 * getter_rank G_Filetypes)")
                      apply (simp_all add: key_rank_def computed_key_def)
  apply auto
  done

text \<open>The two setters write their own key, pre-compute the counterpart from
  \<^verbatim>\<open>self[ 'line_value' ]\<close> and drop the cached query.\<close>

definition SetCompletionStartColumn :: "lib \<Rightarrow> RequestWrap \<Rightarrow> val \<Rightarrow> unit result" where
  "SetCompletionStartColumn L self column_num =
     (let s0 = self\<lparr>cached_computed := (cached_computed self)(''start_column'' \<mapsto> column_num)\<rparr>
      in case getitem L s0 ''line_value'' of (Inl e, s1) \<Rightarrow> (Inl e, s1)
         | (Inr line_value, s1) \<Rightarrow>
        (case ByteOffsetToCodepointOffset L line_value column_num of Inl e \<Rightarrow> (Inl e, s1)
         | Inr codepoint \<Rightarrow>
            (let s2 = s1\<lparr>cached_computed := (cached_computed s1)(''start_codepoint'' \<mapsto> codepoint)\<rparr>
             in (Inr (), s2\<lparr>cached_computed := (cached_computed s2)(''query'' := None)\<rparr>))))"

definition SetCompletionStartCodepoint :: "lib \<Rightarrow> RequestWrap \<Rightarrow> val \<Rightarrow> unit result" where
  "SetCompletionStartCodepoint L self codepoint_offset =
     (let s0 = self\<lparr>cached_computed := (cached_computed self)(''start_codepoint'' \<mapsto> codepoint_offset)\<rparr>
      in case getitem L s0 ''line_value'' of (Inl e, s1) \<Rightarrow> (Inl e, s1)
         | (Inr line_value, s1) \<Rightarrow>
        (case CodepointOffsetToByteOffset L line_value codepoint_offset of Inl e \<Rightarrow> (Inl e, s1)
         | Inr column \<Rightarrow>
            (let s2 = s1\<lparr>cached_computed := (cached_computed s1)(''start_column'' \<mapsto> column)\<rparr>
             in (Inr (), s2\<lparr>cached_computed := (cached_computed s2)(''query'' := None)\<rparr>))))"

fun call_setter :: "lib \<Rightarrow> RequestWrap \<Rightarrow> setter \<Rightarrow> val \<Rightarrow> unit result" where
  "call_setter L self S_SetCompletionStartCodepoint v = SetCompletionStartCodepoint L self v"
| "call_setter L self S_SetCompletionStartColumn v = SetCompletionStartColumn L self v"

text \<open>\<^verbatim>\<open>__setitem__\<close>\<close>

definition read_only_message :: "string \<Rightarrow> string" where
  "read_only_message key = ''Key '' @ [CHR 0x22] @ key @ [CHR 0x22] @ '' is read-only''"

definition setitem :: "lib \<Rightarrow> RequestWrap \<Rightarrow> string \<Rightarrow> val \<Rightarrow> unit result" where
  "setitem L self key v =
     (case computed_key key of
        Some (g, Some setter) \<Rightarrow> call_setter L self setter v
      | Some (g, None) \<Rightarrow> (Inl (ValueError (read_only_message key)), self)
      | None \<Rightarrow> (Inl (ValueError (read_only_message key)), self))"

text \<open>\<^verbatim>\<open>__contains__\<close>\<close>

definition contains :: "RequestWrap \<Rightarrow> string \<Rightarrow> bool \<times> RequestWrap" where
  "contains self key = (computed_key key \<noteq> None \<or> request self key \<noteq> None, self)"

text \<open>\<^verbatim>\<open>get\<close>: \<^verbatim>\<open>self[ key ]\<close> with every \<^verbatim>\<open>KeyError\<close> turned into the default.\<close>

definition get :: "lib \<Rightarrow> RequestWrap \<Rightarrow> string \<Rightarrow> val \<Rightarrow> val result" where
  "get L self key default_value =
     (case getitem L self key of
        (Inl e, s1) \<Rightarrow> (if e = KeyError then (Inr default_value, s1) else (Inl e, s1))
      | (Inr v, s1) \<Rightarrow> (Inr v, s1))"

declare getitem.simps [simp del] call_getter.simps [simp del]
  column_codepoint_getter.simps [simp del] line_bytes_getter.simps [simp del]
  GetCompletionStartColumn.simps [simp del] GetCompletionStartCodepoint.simps [simp del]
  Query.simps [simp del] FirstFiletype.simps [simp del] Filetypes.simps [simp del]

section \<open>A sample set of collaborators\<close>

text \<open>
  Modelled from the spec: the helpers of \<^verbatim>\<open>ycmd.utils\<close> and \<^verbatim>\<open>ycmd.identifier_utils\<close>
  are not part of the wrapper's file; section 6 of the specification gives their
  contracts. The instance below implements those contracts for text in which every
  code point is one byte, so that byte offsets and code point offsets coincide. It
  is used for concrete runs only; every general statement is about an arbitrary
  \<^typ>\<open>lib\<close>.
\<close>

definition is_word_char :: "char \<Rightarrow> bool" where
  "is_word_char c =
     (let n = (of_char c :: nat)
      in (48 \<le> n \<and> n \<le> 57) \<or> (65 \<le> n \<and> n \<le> 90) \<or> (97 \<le> n \<and> n \<le> 122) \<or> n = 95)"

definition is_digit :: "char \<Rightarrow> bool" where
  "is_digit c = (let n = (of_char c :: nat) in 48 \<le> n \<and> n \<le> 57)"

fun IsIdentifier :: "string \<Rightarrow> bool" where
  "IsIdentifier [] = False"
| "IsIdentifier (c # cs) = (is_word_char c \<and> \<not> is_digit c \<and> list_all is_word_char cs)"

fun split_on :: "char \<Rightarrow> string \<Rightarrow> string list" where
  "split_on c [] = [[]]"
| "split_on c (x # xs) =
     (if x = c then [] # split_on c xs
      else (case split_on c xs of [] \<Rightarrow> [[x]] | l # ls \<Rightarrow> (x # l) # ls))"

fun ascii_ToUnicode :: "val \<Rightarrow> error + val" where
  "ascii_ToUnicode (VStr s) = Inr (VStr s)"
| "ascii_ToUnicode (VBytes b) = Inr (VStr b)"
| "ascii_ToUnicode VNone = Inr (VStr [])"
| "ascii_ToUnicode v = Inl TypeError"

fun ascii_ToBytes :: "val \<Rightarrow> error + val" where
  "ascii_ToBytes (VStr s) = Inr (VBytes s)"
| "ascii_ToBytes (VBytes b) = Inr (VBytes b)"
| "ascii_ToBytes v = Inl TypeError"

fun prefix_offset :: "val \<Rightarrow> val \<Rightarrow> error + val" where
  "prefix_offset (VStr s) (VInt n) = Inr (VInt (int (length (py_slice s 0 (n - 1))) + 1))"
| "prefix_offset (VBytes s) (VInt n) = Inr (VInt (int (length (py_slice s 0 (n - 1))) + 1))"
| "prefix_offset line v = Inl TypeError"

fun ascii_SplitLines :: "val \<Rightarrow> error + val" where
  "ascii_SplitLines (VStr s) = Inr (VList (map VStr (split_on (CHR 0x0A) s)))"
| "ascii_SplitLines v = Inl TypeError"

fun ascii_StartOfLongestIdentifierEndingAtIndex :: "val \<Rightarrow> val \<Rightarrow> val \<Rightarrow> error + val" where
  "ascii_StartOfLongestIdentifierEndingAtIndex (VStr text) (VInt index) filetype =
     (if text = [] \<or> index < 1 \<or> index > int (length text) then Inr (VInt index)
      else (case find (\<lambda>i. IsIdentifier (py_slice text (int i) index)) [0 ..< nat index] of
              Some i \<Rightarrow> Inr (VInt (int i))
            | None \<Rightarrow> Inr (VInt index)))"
| "ascii_StartOfLongestIdentifierEndingAtIndex text index filetype = Inl TypeError"

definition ascii_lib :: lib where
  "ascii_lib =
     \<lparr> ByteOffsetToCodepointOffset = prefix_offset,
       CodepointOffsetToByteOffset = prefix_offset,
       ToUnicode = ascii_ToUnicode,
       ToBytes = ascii_ToBytes,
       SplitLines = ascii_SplitLines,
       StartOfLongestIdentifierEndingAtIndex = ascii_StartOfLongestIdentifierEndingAtIndex,
       EnsureRequestValid = (\<lambda>req. Inr ()) \<rparr>"

section \<open>Sample requests and auxiliary notions\<close>

text \<open>A request with the cursor just past \<^verbatim>\<open>foo.bar\<close> on the second line of its file.\<close>

definition example_file :: val where
  "example_file =
     VDict [ (''contents'', VStr (''x = 1'' @ [CHR 0x0A] @ ''foo.bar'')),
             (''filetypes'', VList [VStr ''python'']) ]"

definition example_request :: "string \<rightharpoonup> val" where
  "example_request =
     [ ''filepath'' \<mapsto> VStr ''/tmp/a.py'',
       ''line_num'' \<mapsto> VInt 2,
       ''column_num'' \<mapsto> VInt 8,
       ''file_data'' \<mapsto> VDict [(''/tmp/a.py'', example_file)] ]"

definition example_view :: RequestWrap where
  "example_view = \<lparr>request = example_request, cached_computed = Map.empty\<rparr>"

text \<open>A request whose \<open>filepath\<close> has no entry in \<open>file_data\<close>.\<close>

definition missing_file_request :: "string \<rightharpoonup> val" where
  "missing_file_request =
     [ ''filepath'' \<mapsto> VStr ''/tmp/a.py'',
       ''line_num'' \<mapsto> VInt 1,
       ''column_num'' \<mapsto> VInt 1,
       ''file_data'' \<mapsto> VDict [] ]"

definition missing_file_view :: RequestWrap where
  "missing_file_view = \<lparr>request = missing_file_request, cached_computed = Map.empty\<rparr>"

text \<open>Reading a list of keys one after the other, the results discarded: any run of
  lookups with no write in between.\<close>

fun getitems :: "lib \<Rightarrow> RequestWrap \<Rightarrow> string list \<Rightarrow> RequestWrap" where
  "getitems L self [] = self"
| "getitems L self (key # keys) = getitems L (snd (getitem L self key)) keys"

text \<open>A later state of a wrapper: the same request, and a cache that has kept every
  entry it had.\<close>

definition extends :: "RequestWrap \<Rightarrow> RequestWrap \<Rightarrow> bool" where
  "extends s s' \<longleftrightarrow> request s' = request s \<and> cached_computed s \<subseteq>\<^sub>m cached_computed s'"

text \<open>The example wrapper after its query has been read: the query and the start
  position it was cut at are cached.\<close>

definition example_view_after_query :: RequestWrap where
  "example_view_after_query =
     example_view\<lparr>cached_computed :=
       [''query'' \<mapsto> VStr ''bar'', ''start_codepoint'' \<mapsto> VInt 5]\<rparr>"

text \<open>The start position as the specification words it: convert the byte column to a
  code point offset, scan from the index one below it, add one; the byte form is the
  conversion of that result against the same line. A failure of any step is the
  failure of the whole.\<close>

definition spec_start_codepoint :: "lib \<Rightarrow> val \<Rightarrow> val \<Rightarrow> val \<Rightarrow> error + val" where
  "spec_start_codepoint L line_value column_num filetype =
     (case ByteOffsetToCodepointOffset L line_value column_num of Inl e \<Rightarrow> Inl e
      | Inr cursor \<Rightarrow>
     (case py_sub cursor (VInt 1) of Inl e \<Rightarrow> Inl e
      | Inr idx \<Rightarrow>
     (case StartOfLongestIdentifierEndingAtIndex L line_value idx filetype of Inl e \<Rightarrow> Inl e
      | Inr start \<Rightarrow> py_add start (VInt 1))))"

definition spec_start_column :: "lib \<Rightarrow> val \<Rightarrow> val \<Rightarrow> val \<Rightarrow> error + val" where
  "spec_start_column L line_value column_num filetype =
     (case spec_start_codepoint L line_value column_num filetype of Inl e \<Rightarrow> Inl e
      | Inr codepoint \<Rightarrow> CodepointOffsetToByteOffset L line_value codepoint)"

text \<open>The example wrapper with a start offset above a cursor offset of 0 in its cache.\<close>

definition inverted_view :: RequestWrap where
  "inverted_view =
     example_view\<lparr>cached_computed :=
       [''start_codepoint'' \<mapsto> VInt 1, ''column_codepoint'' \<mapsto> VInt 0]\<rparr>"

section \<open>Basic facts about the registry and the lookup\<close>

lemma computed_key_simps [simp]:
  "computed_key ''line_value'' = Some (G_CurrentLine, None)"
  "computed_key ''start_codepoint'' =
     Some (G_GetCompletionStartCodepoint, Some S_SetCompletionStartCodepoint)"
  "computed_key ''column_codepoint'' = Some (G_column_codepoint, None)"
  "computed_key ''line_bytes'' = Some (G_line_bytes, None)"
  "computed_key ''start_column'' =
     Some (G_GetCompletionStartColumn, Some S_SetCompletionStartColumn)"
  "computed_key ''query'' = Some (G_Query, None)"
  "computed_key ''filetypes'' = Some (G_Filetypes, None)"
  "computed_key ''first_filetype'' = Some (G_FirstFiletype, None)"
  "computed_key ''filepath'' = None"
  "computed_key ''file_data'' = None"
  "computed_key ''line_num'' = None"
  "computed_key ''column_num'' = None"
  by (simp_all add: computed_key_def)

lemma computed_key_dom:
  "computed_key key \<noteq> None \<longleftrightarrow>
     key \<in> {''line_value'', ''start_codepoint'', ''column_codepoint'', ''line_bytes'',
            ''start_column'', ''query'', ''filetypes'', ''first_filetype''}"
  by (simp add: computed_key_def)

lemma computed_key_setter:
  "computed_key key = Some (g, Some s) \<Longrightarrow> key = ''start_codepoint'' \<or> key = ''start_column''"
  by (simp add: computed_key_def split: if_splits)

lemma getitem_cached: "cached_computed self key = Some v \<Longrightarrow> getitem L self key = (Inr v, self)"
  by (simp add: getitem.simps)

lemma getitem_raw:
  "cached_computed self key = None \<Longrightarrow> computed_key key = None \<Longrightarrow>
   getitem L self key = (request_item self key, self)"
  by (simp add: getitem.simps)

lemma getitem_computed:
  "cached_computed self key = None \<Longrightarrow> computed_key key = Some (g, s) \<Longrightarrow>
   getitem L self key =
     (case call_getter L self g of
        (Inl e, self') \<Rightarrow> (Inl e, self')
      | (Inr v, self') \<Rightarrow> (Inr v, self'\<lparr>cached_computed := (cached_computed self')(key \<mapsto> v)\<rparr>))"
  by (simp add: getitem.simps)

text \<open>
  Claim C8. Writing through the wrapper is refused for every key but the two that have
  a setter: for any key other than \<open>start_column\<close> and \<open>start_codepoint\<close>, whether
  a derived field without setter or a key of the raw request (or of neither),
  \<open>setitem\<close> raises the read-only \<^verbatim>\<open>ValueError\<close> and leaves the wrapper as it was;
  hence a write that returns normally was a write to one of those two keys.
\<close>

theorem setitem_read_only:
  "(key \<noteq> ''start_column'' \<and> key \<noteq> ''start_codepoint'' \<longrightarrow>
      setitem L self key v = (Inl (ValueError (read_only_message key)), self)) \<and>
   (fst (setitem L self key v) = Inr () \<longrightarrow> key = ''start_column'' \<or> key = ''start_codepoint'')"
proof -
  have ro: "setitem L self key v = (Inl (ValueError (read_only_message key)), self)"
    if "key \<noteq> ''start_column''" "key \<noteq> ''start_codepoint''"
  proof (cases "computed_key key")
    case None
    then show ?thesis by (simp add: setitem_def)
  next
    case (Some gs)
    obtain g s where gs: "gs = (g, s)" by (cases gs)
    have "s = None"
      using computed_key_setter [of key g] Some gs that by (cases s) auto
    with Some gs show ?thesis by (simp add: setitem_def)
  qed
  show ?thesis
  proof (intro conjI impI)
    assume "key \<noteq> ''start_column'' \<and> key \<noteq> ''start_codepoint''"
    then show "setitem L self key v = (Inl (ValueError (read_only_message key)), self)"
      using ro by simp
  next
    assume ok: "fst (setitem L self key v) = Inr ()"
    show "key = ''start_column'' \<or> key = ''start_codepoint''"
    proof (rule ccontr)
      assume "\<not> (key = ''start_column'' \<or> key = ''start_codepoint'')"
      then have "setitem L self key v = (Inl (ValueError (read_only_message key)), self)"
        using ro by simp
      with ok show False by simp
    qed
  qed
qed

theorem setitem_read_only_witness:
  "setitem ascii_lib example_view ''line_value'' (VStr ''x'')
     = (Inl (ValueError (read_only_message ''line_value'')), example_view) \<and>
   setitem ascii_lib example_view ''column_num'' (VInt 3)
     = (Inl (ValueError (read_only_message ''column_num'')), example_view)"
  using setitem_read_only [of "''line_value''" ascii_lib example_view "VStr ''x''"]
        setitem_read_only [of "''column_num''" ascii_lib example_view "VInt 3"]
  by simp

text \<open>
  Claim C9. \<open>contains\<close> answers true exactly for the eight registered derived-field
  names and for the keys present in the raw request, and hands back the wrapper
  unchanged: neither the cache nor the request is touched, and no collaborator
  (hence no getter) is involved.
\<close>

theorem contains_registered_or_raw:
  "contains self key =
     (key \<in> {''line_value'', ''start_codepoint'', ''column_codepoint'', ''line_bytes'',
             ''start_column'', ''query'', ''filetypes'', ''first_filetype''}
        \<or> key \<in> dom (request self), self)"
  using computed_key_dom [of key] by (auto simp: contains_def)

theorem contains_registered_or_raw_witness:
  "contains example_view ''query'' = (True, example_view) \<and>
   contains example_view ''line_num'' = (True, example_view) \<and>
   contains example_view ''no_such_key'' = (False, example_view)"
  using contains_registered_or_raw [of example_view "''query''"]
        contains_registered_or_raw [of example_view "''line_num''"]
        contains_registered_or_raw [of example_view "''no_such_key''"]
  by (simp add: example_view_def example_request_def)

section \<open>The current line\<close>

lemma CurrentLine_state [simp]: "snd (CurrentLine L self) = self"
  by (simp add: CurrentLine_def split: sum.splits)

lemma getitem_line_value:
  "cached_computed self ''line_value'' = None \<Longrightarrow>
   getitem L self ''line_value'' =
     (case fst (CurrentLine L self) of
        Inl e \<Rightarrow> (Inl e, self)
      | Inr v \<Rightarrow> (Inr v, self\<lparr>cached_computed := (cached_computed self)(''line_value'' \<mapsto> v)\<rparr>))"
proof -
  assume c: "cached_computed self ''line_value'' = None"
  obtain r where r: "CurrentLine L self = (r, self)"
    using CurrentLine_state [of L self] by (cases "CurrentLine L self") simp
  show ?thesis
    using c r by (simp add: getitem_computed [of self "''line_value''" G_CurrentLine None]
        call_getter.simps split: sum.splits)
qed

lemma CurrentLine_well_formed:
  assumes "request self ''filepath'' = Some path"
    and "request self ''file_data'' = Some file_data"
    and "subscript file_data path = Inr entry"
    and "subscript entry (VStr ''contents'') = Inr contents"
    and "SplitLines L contents = Inr (VList lines)"
    and "request self ''line_num'' = Some (VInt line_num)"
  shows "fst (CurrentLine L self) = py_index lines (line_num - 1)"
  using assms by (simp add: CurrentLine_def request_item_def)

text \<open>
  Claim C6. For a request that records contents for its \<open>filepath\<close> in \<open>file_data\<close>,
  reading \<open>line_value\<close> (not yet cached) yields the element at index \<open>line_num - 1\<close>
  of \<open>SplitLines\<close> applied to those contents: for a line number between 1 and the
  number of lines that is the line itself, and for a line number beyond the number of
  lines the read fails with \<^verbatim>\<open>IndexError\<close>, the line-out-of-range failure.
\<close>

theorem line_value_indexes_split_lines:
  assumes "cached_computed self ''line_value'' = None"
    and "request self ''filepath'' = Some path"
    and "request self ''file_data'' = Some file_data"
    and "subscript file_data path = Inr entry"
    and "subscript entry (VStr ''contents'') = Inr contents"
    and "SplitLines L contents = Inr (VList lines)"
    and "request self ''line_num'' = Some (VInt line_num)"
  shows "fst (getitem L self ''line_value'') = py_index lines (line_num - 1) \<and>
         (1 \<le> line_num \<and> line_num \<le> int (length lines) \<longrightarrow>
            fst (getitem L self ''line_value'') = Inr (lines ! nat (line_num - 1))) \<and>
         (int (length lines) < line_num \<longrightarrow>
            fst (getitem L self ''line_value'') = Inl IndexError)"
proof -
  have cur: "fst (CurrentLine L self) = py_index lines (line_num - 1)"
    using assms(2-7) by (rule CurrentLine_well_formed)
  have a: "fst (getitem L self ''line_value'') = py_index lines (line_num - 1)"
    using assms(1) cur by (simp add: getitem_line_value split: sum.splits)
  have b: "py_index lines (line_num - 1) = Inr (lines ! nat (line_num - 1))"
    if "1 \<le> line_num" "line_num \<le> int (length lines)"
    using that by (simp add: py_index_def Let_def)
  have c: "py_index lines (line_num - 1) = Inl IndexError" if "int (length lines) < line_num"
    using that by (simp add: py_index_def Let_def)
  from a b c show ?thesis by simp
qed

theorem line_value_indexes_split_lines_witness:
  "fst (getitem ascii_lib example_view ''line_value'') = Inr (VStr ''foo.bar'') \<and>
   fst (getitem ascii_lib (example_view\<lparr>request := (request example_view)(''line_num'' \<mapsto> VInt 3)\<rparr>)
          ''line_value'') = Inl IndexError"
proof -
  let ?far = "example_view\<lparr>request := (request example_view)(''line_num'' \<mapsto> VInt 3)\<rparr>"
  have split: "SplitLines ascii_lib (VStr (''x = 1'' @ [CHR 0x0A] @ ''foo.bar''))
                 = Inr (VList [VStr ''x = 1'', VStr ''foo.bar''])"
    by (simp add: ascii_lib_def)
  have entry: "subscript (VDict [(''/tmp/a.py'', example_file)]) (VStr ''/tmp/a.py'') = Inr example_file"
    by simp
  have contents: "subscript example_file (VStr ''contents'')
                    = Inr (VStr (''x = 1'' @ [CHR 0x0A] @ ''foo.bar''))"
    by (simp add: example_file_def)
  have "fst (getitem ascii_lib example_view ''line_value'') = Inr (VStr ''foo.bar'')"
    using line_value_indexes_split_lines [of example_view "VStr ''/tmp/a.py''"
        "VDict [(''/tmp/a.py'', example_file)]" example_file
        "VStr (''x = 1'' @ [CHR 0x0A] @ ''foo.bar'')" ascii_lib
        "[VStr ''x = 1'', VStr ''foo.bar'']" 2] split entry contents
    by (simp add: example_view_def example_request_def py_index_def)
  moreover have "fst (getitem ascii_lib ?far ''line_value'') = Inl IndexError"
    using line_value_indexes_split_lines [of ?far "VStr ''/tmp/a.py''"
        "VDict [(''/tmp/a.py'', example_file)]" example_file
        "VStr (''x = 1'' @ [CHR 0x0A] @ ''foo.bar'')" ascii_lib
        "[VStr ''x = 1'', VStr ''foo.bar'']" 3] split entry contents
    by (simp add: example_view_def example_request_def py_index_def)
  ultimately show ?thesis by simp
qed

text \<open>
  Claim C10. The index \<open>line_num - 1\<close> is applied to the list of lines as it is, and a
  negative index counts from the end: for a line number that is 0 or negative, and
  not below \<open>1 - length lines\<close>, the read of \<open>line_value\<close> succeeds and returns the
  line at \<open>length lines + line_num - 1\<close>; line number 0 gives the last line of the
  file.
\<close>

theorem line_value_negative_index:
  assumes "cached_computed self ''line_value'' = None"
    and "request self ''filepath'' = Some path"
    and "request self ''file_data'' = Some file_data"
    and "subscript file_data path = Inr entry"
    and "subscript entry (VStr ''contents'') = Inr contents"
    and "SplitLines L contents = Inr (VList lines)"
    and "request self ''line_num'' = Some (VInt line_num)"
    and "line_num \<le> 0"
    and "1 - int (length lines) \<le> line_num"
  shows "fst (getitem L self ''line_value'')
           = Inr (lines ! nat (int (length lines) + line_num - 1)) \<and>
         (line_num = 0 \<longrightarrow> fst (getitem L self ''line_value'') = Inr (last lines))"
proof -
  have cur: "fst (CurrentLine L self) = py_index lines (line_num - 1)"
    using assms(2-7) by (rule CurrentLine_well_formed)
  have a: "fst (getitem L self ''line_value'') = py_index lines (line_num - 1)"
    using assms(1) cur by (simp add: getitem_line_value split: sum.splits)
  have b: "py_index lines (line_num - 1) = Inr (lines ! nat (int (length lines) + line_num - 1))"
    using assms(8,9) by (simp add: py_index_def Let_def algebra_simps)
  have ne: "lines \<noteq> []" using assms(8,9) by auto
  have c: "lines ! nat (int (length lines) + line_num - 1) = last lines" if "line_num = 0"
  proof -
    have "nat (int (length lines) - 1) = length lines - 1"
      using ne by (cases lines) auto
    with that ne show ?thesis by (simp add: last_conv_nth)
  qed
  from a b c show ?thesis by simp
qed

theorem line_value_negative_index_witness:
  "fst (getitem ascii_lib (example_view\<lparr>request := (request example_view)(''line_num'' \<mapsto> VInt 0)\<rparr>)
          ''line_value'') = Inr (VStr ''foo.bar'') \<and>
   fst (getitem ascii_lib (example_view\<lparr>request := (request example_view)(''line_num'' \<mapsto> VInt (- 1))\<rparr>)
          ''line_value'') = Inr (VStr ''x = 1'')"
proof -
  let ?v0 = "example_view\<lparr>request := (request example_view)(''line_num'' \<mapsto> VInt 0)\<rparr>"
  let ?v1 = "example_view\<lparr>request := (request example_view)(''line_num'' \<mapsto> VInt (- 1))\<rparr>"
  have split: "SplitLines ascii_lib (VStr (''x = 1'' @ [CHR 0x0A] @ ''foo.bar''))
                 = Inr (VList [VStr ''x = 1'', VStr ''foo.bar''])"
    by (simp add: ascii_lib_def)
  have entry: "subscript (VDict [(''/tmp/a.py'', example_file)]) (VStr ''/tmp/a.py'') = Inr example_file"
    by simp
  have contents: "subscript example_file (VStr ''contents'')
                    = Inr (VStr (''x = 1'' @ [CHR 0x0A] @ ''foo.bar''))"
    by (simp add: example_file_def)
  have "fst (getitem ascii_lib ?v0 ''line_value'') = Inr (VStr ''foo.bar'')"
    using line_value_negative_index [of ?v0 "VStr ''/tmp/a.py''"
        "VDict [(''/tmp/a.py'', example_file)]" example_file
        "VStr (''x = 1'' @ [CHR 0x0A] @ ''foo.bar'')" ascii_lib
        "[VStr ''x = 1'', VStr ''foo.bar'']" 0] split entry contents
    by (simp add: example_view_def example_request_def py_index_def)
  moreover have "fst (getitem ascii_lib ?v1 ''line_value'') = Inr (VStr ''x = 1'')"
    using line_value_negative_index [of ?v1 "VStr ''/tmp/a.py''"
        "VDict [(''/tmp/a.py'', example_file)]" example_file
        "VStr (''x = 1'' @ [CHR 0x0A] @ ''foo.bar'')" ascii_lib
        "[VStr ''x = 1'', VStr ''foo.bar'']" "- 1"] split entry contents
    by (simp add: example_view_def example_request_def py_index_def)
  ultimately show ?thesis by simp
qed

section \<open>The filetypes\<close>

lemma getitem_filetypes:
  assumes "cached_computed self ''filetypes'' = None"
    and "cached_computed self ''filepath'' = None"
    and "cached_computed self ''file_data'' = None"
  shows "getitem L self ''filetypes'' =
     (case request_item self ''filepath'' of Inl e \<Rightarrow> (Inl e, self)
      | Inr path \<Rightarrow>
     (case request_item self ''file_data'' of Inl e \<Rightarrow> (Inl e, self)
      | Inr file_data \<Rightarrow>
     (case subscript file_data path of Inl e \<Rightarrow> (Inl e, self)
      | Inr entry \<Rightarrow>
     (case subscript entry (VStr ''filetypes'') of Inl e \<Rightarrow> (Inl e, self)
      | Inr v \<Rightarrow>
          (Inr v, self\<lparr>cached_computed := (cached_computed self)(''filetypes'' \<mapsto> v)\<rparr>)))))"
  using assms
  by (simp add: getitem_computed [of self "''filetypes''" G_Filetypes None] call_getter.simps
      Filetypes.simps getitem_raw split: sum.splits)

lemma FirstFiletype_swallows:
  "fst (FirstFiletype L self) \<noteq> Inl KeyError \<and> fst (FirstFiletype L self) \<noteq> Inl IndexError"
  by (simp add: FirstFiletype.simps split: prod.splits sum.splits)

lemma getitem_first_filetype:
  "cached_computed self ''first_filetype'' = None \<Longrightarrow>
   getitem L self ''first_filetype'' =
     (case FirstFiletype L self of
        (Inl e, s1) \<Rightarrow> (Inl e, s1)
      | (Inr v, s1) \<Rightarrow>
          (Inr v, s1\<lparr>cached_computed := (cached_computed s1)(''first_filetype'' \<mapsto> v)\<rparr>))"
  by (simp add: getitem_computed [of self "''first_filetype''" G_FirstFiletype None]
      call_getter.simps)

lemma first_filetype_never_lookup_error:
  "fst (getitem L self ''first_filetype'') \<noteq> Inl KeyError \<and>
   fst (getitem L self ''first_filetype'') \<noteq> Inl IndexError"
proof (cases "cached_computed self ''first_filetype''")
  case None
  then show ?thesis
    using FirstFiletype_swallows [of L self]
    by (auto simp: getitem_first_filetype split: prod.splits sum.splits)
next
  case (Some v)
  then show ?thesis by (simp add: getitem_cached)
qed

lemma first_filetype_of_filetypes:
  assumes "cached_computed self ''first_filetype'' = None"
  shows "fst (getitem L self ''first_filetype'') =
     (case getitem L self ''filetypes'' of
        (Inl e, s1) \<Rightarrow> if e = KeyError \<or> e = IndexError then Inr VNone else Inl e
      | (Inr filetypes, s1) \<Rightarrow>
          (case subscript filetypes (VInt 0) of
             Inl e \<Rightarrow> if e = KeyError \<or> e = IndexError then Inr VNone else Inl e
           | Inr v \<Rightarrow> Inr v))"
  using assms
  by (simp add: getitem_first_filetype FirstFiletype.simps split: prod.splits sum.splits)

text \<open>
  Claim C7. Reading \<open>first_filetype\<close> never fails with \<^verbatim>\<open>KeyError\<close> or \<^verbatim>\<open>IndexError\<close>,
  whatever the request and the cache hold. On a wrapper that has not cached the keys
  involved, it returns the first element of the list of filetypes recorded for the
  request's \<open>filepath\<close> when that list is not empty, and \<^verbatim>\<open>None\<close> when \<open>file_data\<close> has
  no entry for the path, when the entry has no \<open>filetypes\<close>, or when the list is empty.
\<close>

theorem first_filetype_or_none:
  "fst (getitem L self ''first_filetype'') \<noteq> Inl KeyError \<and>
   fst (getitem L self ''first_filetype'') \<noteq> Inl IndexError \<and>
   (cached_computed self ''first_filetype'' = None \<and> cached_computed self ''filetypes'' = None \<and>
    cached_computed self ''filepath'' = None \<and> cached_computed self ''file_data'' = None \<and>
    request self ''filepath'' = Some (VStr path) \<and> request self ''file_data'' = Some (VDict file_data)
    \<longrightarrow>
      (map_of file_data path = None \<longrightarrow> fst (getitem L self ''first_filetype'') = Inr VNone) \<and>
      (\<forall>entry. map_of file_data path = Some (VDict entry) \<longrightarrow>
         (map_of entry ''filetypes'' = None \<longrightarrow>
            fst (getitem L self ''first_filetype'') = Inr VNone) \<and>
         (map_of entry ''filetypes'' = Some (VList []) \<longrightarrow>
            fst (getitem L self ''first_filetype'') = Inr VNone) \<and>
         (\<forall>x xs. map_of entry ''filetypes'' = Some (VList (x # xs)) \<longrightarrow>
            fst (getitem L self ''first_filetype'') = Inr x)))"
proof (intro conjI impI allI)
  show "fst (getitem L self ''first_filetype'') \<noteq> Inl KeyError"
    using first_filetype_never_lookup_error [of L self] by simp
  show "fst (getitem L self ''first_filetype'') \<noteq> Inl IndexError"
    using first_filetype_never_lookup_error [of L self] by simp
next
  assume h: "cached_computed self ''first_filetype'' = None \<and> cached_computed self ''filetypes'' = None \<and>
    cached_computed self ''filepath'' = None \<and> cached_computed self ''file_data'' = None \<and>
    request self ''filepath'' = Some (VStr path) \<and> request self ''file_data'' = Some (VDict file_data)"
  assume "map_of file_data path = None"
  with h show "fst (getitem L self ''first_filetype'') = Inr VNone"
    by (simp add: first_filetype_of_filetypes getitem_filetypes request_item_def)
next
  fix entry
  assume h: "cached_computed self ''first_filetype'' = None \<and> cached_computed self ''filetypes'' = None \<and>
    cached_computed self ''filepath'' = None \<and> cached_computed self ''file_data'' = None \<and>
    request self ''filepath'' = Some (VStr path) \<and> request self ''file_data'' = Some (VDict file_data)"
  assume e: "map_of file_data path = Some (VDict entry)"
  {
    assume "map_of entry ''filetypes'' = None"
    with h e show "fst (getitem L self ''first_filetype'') = Inr VNone"
      by (simp add: first_filetype_of_filetypes getitem_filetypes request_item_def)
  next
    assume "map_of entry ''filetypes'' = Some (VList [])"
    with h e show "fst (getitem L self ''first_filetype'') = Inr VNone"
      by (simp add: first_filetype_of_filetypes getitem_filetypes request_item_def py_index_def)
  next
    fix x xs
    assume "map_of entry ''filetypes'' = Some (VList (x # xs))"
    with h e show "fst (getitem L self ''first_filetype'') = Inr x"
      by (simp add: first_filetype_of_filetypes getitem_filetypes request_item_def py_index_def)
  }
qed

theorem first_filetype_or_none_witness:
  "fst (getitem ascii_lib example_view ''first_filetype'') = Inr (VStr ''python'') \<and>
   fst (getitem ascii_lib
          \<lparr>request = [''filepath'' \<mapsto> VStr ''/tmp/b.py'',
                      ''file_data'' \<mapsto> VDict [(''/tmp/a.py'', example_file)]],
           cached_computed = Map.empty\<rparr> ''first_filetype'') = Inr VNone \<and>
   fst (getitem ascii_lib
          \<lparr>request = [''filepath'' \<mapsto> VStr ''/tmp/a.py'',
                      ''file_data'' \<mapsto> VDict [(''/tmp/a.py'', VDict [(''filetypes'', VList [])])]],
           cached_computed = Map.empty\<rparr> ''first_filetype'') = Inr VNone"
proof -
  let ?absent = "\<lparr>request = [''filepath'' \<mapsto> VStr ''/tmp/b.py'',
                      ''file_data'' \<mapsto> VDict [(''/tmp/a.py'', example_file)]],
           cached_computed = Map.empty\<rparr>"
  let ?empty = "\<lparr>request = [''filepath'' \<mapsto> VStr ''/tmp/a.py'',
                      ''file_data'' \<mapsto> VDict [(''/tmp/a.py'', VDict [(''filetypes'', VList [])])]],
           cached_computed = Map.empty\<rparr>"
  have "fst (getitem ascii_lib example_view ''first_filetype'') = Inr (VStr ''python'')"
    using first_filetype_or_none [of ascii_lib example_view "''/tmp/a.py''"
        "[(''/tmp/a.py'', example_file)]"]
    by (simp add: example_view_def example_request_def example_file_def)
  moreover have "fst (getitem ascii_lib ?absent ''first_filetype'') = Inr VNone"
    using first_filetype_or_none [of ascii_lib ?absent "''/tmp/b.py''"
        "[(''/tmp/a.py'', example_file)]"]
    by simp
  moreover have "fst (getitem ascii_lib ?empty ''first_filetype'') = Inr VNone"
    using first_filetype_or_none [of ascii_lib ?empty "''/tmp/a.py''"
        "[(''/tmp/a.py'', VDict [(''filetypes'', VList [])])]"]
    by simp
  ultimately show ?thesis by simp
qed

section \<open>Lookup with a default\<close>

text \<open>
  Claim C4, as stated, fails. It says that a failure raised inside a derived field's
  getter is re-raised by \<open>get\<close>, with a \<open>filepath\<close> absent from \<open>file_data\<close> as its
  example. On exactly such a request the getter of \<open>line_value\<close> raises \<^verbatim>\<open>KeyError\<close>,
  the plain lookup propagates it, and \<open>get\<close> returns the default.
\<close>

theorem get_default_counterexample:
  "fst (call_getter ascii_lib missing_file_view G_CurrentLine) = Inl KeyError \<and>
   fst (getitem ascii_lib missing_file_view ''line_value'') = Inl KeyError \<and>
   fst (get ascii_lib missing_file_view ''line_value'' (VStr ''fallback'')) = Inr (VStr ''fallback'')"
  by (simp add: get_def getitem_line_value call_getter.simps CurrentLine_def request_item_def
      missing_file_view_def missing_file_request_def)

text \<open>
  Claim C4, amended. \<open>get\<close> returns what the plain lookup returns when that succeeds;
  it returns the default whenever the plain lookup fails with \<^verbatim>\<open>KeyError\<close>, be it for
  a key that is neither derived nor in the raw request or from inside a getter; and
  it re-raises every failure that is not a \<^verbatim>\<open>KeyError\<close>. The cache is in each case the
  one the plain lookup leaves.
\<close>

theorem get_default_on_any_KeyError:
  "(\<forall>v s1. getitem L self key = (Inr v, s1) \<longrightarrow> get L self key d = (Inr v, s1)) \<and>
   (\<forall>s1. getitem L self key = (Inl KeyError, s1) \<longrightarrow> get L self key d = (Inr d, s1)) \<and>
   (cached_computed self key = None \<and> computed_key key = None \<and> request self key = None
      \<longrightarrow> get L self key d = (Inr d, self)) \<and>
   (\<forall>e s1. getitem L self key = (Inl e, s1) \<and> e \<noteq> KeyError \<longrightarrow> get L self key d = (Inl e, s1))"
  by (auto simp: get_def getitem_raw request_item_def)

theorem get_default_on_any_KeyError_witness:
  "get ascii_lib example_view ''line_num'' VNone = (Inr (VInt 2), example_view) \<and>
   get ascii_lib example_view ''no_such_key'' (VInt 7) = (Inr (VInt 7), example_view) \<and>
   fst (get ascii_lib (example_view\<lparr>request := (request example_view)(''line_num'' \<mapsto> VInt 3)\<rparr>)
          ''line_value'' VNone) = Inl IndexError"
proof -
  let ?far = "example_view\<lparr>request := (request example_view)(''line_num'' \<mapsto> VInt 3)\<rparr>"
  have a: "getitem ascii_lib example_view ''line_num'' = (Inr (VInt 2), example_view)"
    by (simp add: getitem_raw request_item_def example_view_def example_request_def)
  have b: "cached_computed example_view ''no_such_key'' = None \<and>
           computed_key ''no_such_key'' = None \<and> request example_view ''no_such_key'' = None"
    by (simp add: example_view_def example_request_def computed_key_def)
  have c: "getitem ascii_lib ?far ''line_value'' = (Inl IndexError, ?far)"
    by (simp add: getitem_line_value CurrentLine_def request_item_def example_view_def
        example_request_def example_file_def ascii_lib_def py_index_def)
  show ?thesis
    using get_default_on_any_KeyError [of ascii_lib example_view "''line_num''" VNone] a
      get_default_on_any_KeyError [of ascii_lib example_view "''no_such_key''" "VInt 7"] b
      get_default_on_any_KeyError [of ascii_lib ?far "''line_value''" VNone] c
    by simp
qed

section \<open>Lookups only add to the cache\<close>

lemma extends_refl [simp]: "extends s s"
  by (simp add: extends_def)

lemma extends_trans: "extends s s1 \<Longrightarrow> extends s1 s2 \<Longrightarrow> extends s s2"
  by (auto simp: extends_def intro: map_le_trans)

lemma extends_store:
  "extends s s1 \<Longrightarrow> cached_computed s k = None \<Longrightarrow>
   extends s (s1\<lparr>cached_computed := (cached_computed s1)(k \<mapsto> v)\<rparr>)"
  by (auto simp: extends_def map_le_def dom_def)

lemma extends_cached:
  "extends s s' \<Longrightarrow> cached_computed s k = Some v \<Longrightarrow> cached_computed s' k = Some v"
  by (auto simp: extends_def map_le_def dom_def)

lemma getters_extend:
  shows "extends self (snd (getitem L self key))"
    and "extends self (snd (call_getter L self g))"
    and "extends self (snd (column_codepoint_getter L self))"
    and "extends self (snd (line_bytes_getter L self))"
    and "extends self (snd (GetCompletionStartColumn L self))"
    and "extends self (snd (GetCompletionStartCodepoint L self))"
    and "extends self (snd (Query L self))"
    and "extends self (snd (FirstFiletype L self))"
    and "extends self (snd (Filetypes L self))"
proof (induct L self key and L self g and L self and L self and L self and L self
         and L self and L self and L self
       rule: getitem_call_getter_column_codepoint_getter_line_bytes_getter_GetCompletionStartColumn_GetCompletionStartCodepoint_Query_FirstFiletype_Filetypes.induct)
  case (1 L self key)
  show ?case
  proof (cases "cached_computed self key")
    case (Some v)
    then show ?thesis by (simp add: getitem.simps)
  next
    case None
    show ?thesis
    proof (cases "computed_key key")
      case None
      with \<open>cached_computed self key = None\<close> show ?thesis by (simp add: getitem.simps)
    next
      case (Some gs)
      obtain g s where gs: "gs = (g, s)" by (cases gs)
      from 1 [OF None Some gs [symmetric]] have "extends self (snd (call_getter L self g))" .
      with None Some gs show ?thesis
        by (auto simp: getitem.simps [of L self key] split: prod.splits sum.splits
                 intro: extends_store)
    qed
  qed
next
  case (2 L self g)
  then show ?case by (cases g) (simp_all add: call_getter.simps)
next
  case (3 L self)
  then show ?case
    by (auto simp: column_codepoint_getter.simps [of L self] split: prod.splits sum.splits
             intro: extends_trans)
next
  case (4 L self)
  then show ?case
    by (auto simp: line_bytes_getter.simps [of L self] split: prod.splits sum.splits)
next
  case (5 L self)
  then show ?case
    by (auto simp: GetCompletionStartColumn.simps [of L self] split: prod.splits sum.splits)
       (blast intro: extends_trans)+
next
  case (6 L self)
  then show ?case
    by (auto simp: GetCompletionStartCodepoint.simps [of L self] split: prod.splits sum.splits)
       (blast intro: extends_trans)+
next
  case (7 L self)
  then show ?case
    by (auto simp: Query.simps [of L self] split: prod.splits sum.splits)
       (blast intro: extends_trans)+
next
  case (8 L self)
  then show ?case
    by (auto simp: FirstFiletype.simps [of L self] split: prod.splits sum.splits)
next
  case (9 L self)
  then show ?case
    by (auto simp: Filetypes.simps [of L self] split: prod.splits sum.splits
             intro: extends_trans)
qed

lemma getitems_extend: "extends self (getitems L self keys)"
proof (induction keys arbitrary: self)
  case Nil
  show ?case by simp
next
  case (Cons key keys)
  have "extends self (snd (getitem L self key))" by (rule getters_extend(1))
  moreover have "extends (snd (getitem L self key)) (getitems L (snd (getitem L self key)) keys)"
    by (rule Cons.IH)
  ultimately show ?case by (auto intro: extends_trans)
qed

text \<open>
  Claim C5. When a derived field that is not cached is read successfully, the value
  returned is the one its getter produced and it is stored in the cache under the
  field's name. Every later read of that field, directly afterwards or after any run
  of further reads of any keys and with no write in between, returns that same value and
  leaves the wrapper as it is; it does so whatever the collaborators are, so the
  getter is not run again.
\<close>

theorem getitem_memoizes:
  "computed_key key = Some (g, s) \<and> cached_computed self key = None \<and>
   getitem L self key = (Inr v, s1) \<longrightarrow>
     fst (call_getter L self g) = Inr v \<and>
     cached_computed s1 key = Some v \<and>
     (\<forall>L'. getitem L' s1 key = (Inr v, s1)) \<and>
     (\<forall>L' keys. getitem L' (getitems L' s1 keys) key = (Inr v, getitems L' s1 keys))"
proof (intro impI)
  assume h: "computed_key key = Some (g, s) \<and> cached_computed self key = None \<and>
   getitem L self key = (Inr v, s1)"
  then have run: "fst (call_getter L self g) = Inr v"
    and s1: "s1 = (snd (call_getter L self g))
               \<lparr>cached_computed := (cached_computed (snd (call_getter L self g)))(key \<mapsto> v)\<rparr>"
    by (auto simp: getitem_computed [of self key g s] split: prod.splits sum.splits)
  from s1 have stored: "cached_computed s1 key = Some v" by simp
  have again: "getitem L' s' key = (Inr v, s')" if "extends s1 s'" for L' s'
    using extends_cached [OF that stored] by (rule getitem_cached)
  show "fst (call_getter L self g) = Inr v \<and>
     cached_computed s1 key = Some v \<and>
     (\<forall>L'. getitem L' s1 key = (Inr v, s1)) \<and>
     (\<forall>L' keys. getitem L' (getitems L' s1 keys) key = (Inr v, getitems L' s1 keys))"
    using run stored again [OF extends_refl] again [OF getitems_extend] by blast
qed

theorem getitem_memoizes_witness:
  "fst (getitem ascii_lib example_view ''line_value'') = Inr (VStr ''foo.bar'') \<and>
   cached_computed (snd (getitem ascii_lib example_view ''line_value'')) ''line_value''
     = Some (VStr ''foo.bar'') \<and>
   fst (getitem ascii_lib (snd (getitem ascii_lib example_view ''line_value'')) ''line_value'')
     = Inr (VStr ''foo.bar'') \<and>
   fst (getitem ascii_lib
          (getitems ascii_lib (snd (getitem ascii_lib example_view ''line_value''))
             [''query'', ''line_num''])
          ''line_value'')
     = Inr (VStr ''foo.bar'')"
proof -
  let ?s1 = "example_view\<lparr>cached_computed := [''line_value'' \<mapsto> VStr ''foo.bar'']\<rparr>"
  have run: "getitem ascii_lib example_view ''line_value'' = (Inr (VStr ''foo.bar''), ?s1)"
    by (simp add: getitem_line_value CurrentLine_def request_item_def example_view_def
        example_request_def example_file_def ascii_lib_def py_index_def)
  have "computed_key ''line_value'' = Some (G_CurrentLine, None) \<and>
        cached_computed example_view ''line_value'' = None"
    by (simp add: example_view_def)
  with run getitem_memoizes [of "''line_value''" G_CurrentLine None example_view ascii_lib
      "VStr ''foo.bar''" ?s1]
  have m: "cached_computed ?s1 ''line_value'' = Some (VStr ''foo.bar'') \<and>
     (\<forall>L'. getitem L' ?s1 ''line_value'' = (Inr (VStr ''foo.bar''), ?s1)) \<and>
     (\<forall>L' keys. getitem L' (getitems L' ?s1 keys) ''line_value''
        = (Inr (VStr ''foo.bar''), getitems L' ?s1 keys))"
    by simp
  then have "fst (getitem ascii_lib ?s1 ''line_value'') = Inr (VStr ''foo.bar'')"
    and "fst (getitem ascii_lib (getitems ascii_lib ?s1 [''query'', ''line_num'']) ''line_value'')
           = Inr (VStr ''foo.bar'')"
    by (simp_all del: getitems.simps)
  with run m show ?thesis by (simp del: getitems.simps)
qed

section \<open>Overriding the start position\<close>

lemma CurrentLine_cache_irrelevant:
  "fst (CurrentLine L (self\<lparr>cached_computed := c\<rparr>)) = fst (CurrentLine L self)"
  by (simp add: CurrentLine_def request_item_def split: sum.splits option.splits)

lemma getitem_line_value_stored:
  "getitem L self ''line_value'' = (Inr line, s1) \<Longrightarrow> cached_computed s1 ''line_value'' = Some line"
  by (cases "cached_computed self ''line_value''")
     (auto simp: getitem_line_value getitem_cached split: sum.splits)

lemma getitem_line_value_other_key:
  assumes "k \<noteq> ''line_value''"
  shows "getitem L (self\<lparr>cached_computed := (cached_computed self)(k \<mapsto> x)\<rparr>) ''line_value'' =
     (fst (getitem L self ''line_value''),
      (snd (getitem L self ''line_value''))
        \<lparr>cached_computed := (cached_computed (snd (getitem L self ''line_value'')))(k \<mapsto> x)\<rparr>)"
proof (cases "cached_computed self ''line_value''")
  case None
  with assms show ?thesis
    by (simp add: getitem_line_value CurrentLine_cache_irrelevant fun_upd_twist split: sum.splits)
next
  case (Some l)
  with assms show ?thesis by (simp add: getitem_cached)
qed

lemma SetCompletionStartColumn_result:
  "SetCompletionStartColumn L self v =
     (case getitem L self ''line_value'' of
        (Inl e, s1) \<Rightarrow>
          (Inl e, s1\<lparr>cached_computed := (cached_computed s1)(''start_column'' \<mapsto> v)\<rparr>)
      | (Inr line, s1) \<Rightarrow>
          (case ByteOffsetToCodepointOffset L line v of
             Inl e \<Rightarrow> (Inl e, s1\<lparr>cached_computed := (cached_computed s1)(''start_column'' \<mapsto> v)\<rparr>)
           | Inr cp \<Rightarrow>
               (Inr (), s1\<lparr>cached_computed :=
                  (cached_computed s1)(''start_column'' \<mapsto> v, ''start_codepoint'' \<mapsto> cp,
                                       ''query'' := None)\<rparr>)))"
  by (simp add: SetCompletionStartColumn_def Let_def getitem_line_value_other_key
      split: prod.splits sum.splits)

lemma SetCompletionStartCodepoint_result:
  "SetCompletionStartCodepoint L self v =
     (case getitem L self ''line_value'' of
        (Inl e, s1) \<Rightarrow>
          (Inl e, s1\<lparr>cached_computed := (cached_computed s1)(''start_codepoint'' \<mapsto> v)\<rparr>)
      | (Inr line, s1) \<Rightarrow>
          (case CodepointOffsetToByteOffset L line v of
             Inl e \<Rightarrow> (Inl e, s1\<lparr>cached_computed := (cached_computed s1)(''start_codepoint'' \<mapsto> v)\<rparr>)
           | Inr col \<Rightarrow>
               (Inr (), s1\<lparr>cached_computed :=
                  (cached_computed s1)(''start_codepoint'' \<mapsto> v, ''start_column'' \<mapsto> col,
                                       ''query'' := None)\<rparr>)))"
  by (simp add: SetCompletionStartCodepoint_def Let_def getitem_line_value_other_key
      split: prod.splits sum.splits)

lemma setitem_start_column:
  "setitem L self ''start_column'' v = SetCompletionStartColumn L self v"
  by (simp add: setitem_def)

lemma setitem_start_codepoint:
  "setitem L self ''start_codepoint'' v = SetCompletionStartCodepoint L self v"
  by (simp add: setitem_def)

text \<open>
  Claim C1. Writing \<open>start_column\<close> with a value \<open>v\<close> returns normally exactly when the
  current line can be read and \<open>ByteOffsetToCodepointOffset\<close> returns for it and \<open>v\<close>.
  Afterwards the cache holds \<open>v\<close> under \<open>start_column\<close> and the converted offset under
  \<open>start_codepoint\<close>, holds no \<open>query\<close>, and reading \<open>start_codepoint\<close> returns the
  converted offset from the cache, the line being the cached \<open>line_value\<close>. Writing
  \<open>start_codepoint\<close> is the mirror image with \<open>CodepointOffsetToByteOffset\<close>.
\<close>

theorem setters_keep_start_fields_consistent:
  "(fst (getitem L self ''line_value'') = Inr line \<and>
    ByteOffsetToCodepointOffset L line v = Inr cp \<longrightarrow>
      (let s' = snd (setitem L self ''start_column'' v) in
         fst (setitem L self ''start_column'' v) = Inr () \<and>
         cached_computed s' ''start_column'' = Some v \<and>
         cached_computed s' ''start_codepoint'' = Some cp \<and>
         cached_computed s' ''query'' = None \<and>
         getitem L s' ''line_value'' = (Inr line, s') \<and>
         getitem L s' ''start_codepoint'' = (Inr cp, s'))) \<and>
   (fst (getitem L self ''line_value'') = Inr line \<and>
    CodepointOffsetToByteOffset L line v = Inr col \<longrightarrow>
      (let s' = snd (setitem L self ''start_codepoint'' v) in
         fst (setitem L self ''start_codepoint'' v) = Inr () \<and>
         cached_computed s' ''start_codepoint'' = Some v \<and>
         cached_computed s' ''start_column'' = Some col \<and>
         cached_computed s' ''query'' = None \<and>
         getitem L s' ''line_value'' = (Inr line, s') \<and>
         getitem L s' ''start_column'' = (Inr col, s'))) \<and>
   (fst (setitem L self ''start_column'' v) = Inr () \<longrightarrow>
      (\<exists>l c. fst (getitem L self ''line_value'') = Inr l \<and>
             ByteOffsetToCodepointOffset L l v = Inr c)) \<and>
   (fst (setitem L self ''start_codepoint'' v) = Inr () \<longrightarrow>
      (\<exists>l c. fst (getitem L self ''line_value'') = Inr l \<and>
             CodepointOffsetToByteOffset L l v = Inr c))"
proof (intro conjI impI)
  assume h: "fst (getitem L self ''line_value'') = Inr line \<and>
    ByteOffsetToCodepointOffset L line v = Inr cp"
  obtain s1 where s1: "getitem L self ''line_value'' = (Inr line, s1)"
    using h by (cases "getitem L self ''line_value''") simp
  have stored: "cached_computed s1 ''line_value'' = Some line"
    using s1 by (rule getitem_line_value_stored)
  show "let s' = snd (setitem L self ''start_column'' v) in
         fst (setitem L self ''start_column'' v) = Inr () \<and>
         cached_computed s' ''start_column'' = Some v \<and>
         cached_computed s' ''start_codepoint'' = Some cp \<and>
         cached_computed s' ''query'' = None \<and>
         getitem L s' ''line_value'' = (Inr line, s') \<and>
         getitem L s' ''start_codepoint'' = (Inr cp, s')"
    using h s1 stored
    by (simp add: setitem_start_column SetCompletionStartColumn_result Let_def getitem_cached)
next
  assume h: "fst (getitem L self ''line_value'') = Inr line \<and>
    CodepointOffsetToByteOffset L line v = Inr col"
  obtain s1 where s1: "getitem L self ''line_value'' = (Inr line, s1)"
    using h by (cases "getitem L self ''line_value''") simp
  have stored: "cached_computed s1 ''line_value'' = Some line"
    using s1 by (rule getitem_line_value_stored)
  show "let s' = snd (setitem L self ''start_codepoint'' v) in
         fst (setitem L self ''start_codepoint'' v) = Inr () \<and>
         cached_computed s' ''start_codepoint'' = Some v \<and>
         cached_computed s' ''start_column'' = Some col \<and>
         cached_computed s' ''query'' = None \<and>
         getitem L s' ''line_value'' = (Inr line, s') \<and>
         getitem L s' ''start_column'' = (Inr col, s')"
    using h s1 stored
    by (simp add: setitem_start_codepoint SetCompletionStartCodepoint_result Let_def
        getitem_cached)
next
  assume "fst (setitem L self ''start_column'' v) = Inr ()"
  then show "\<exists>l c. fst (getitem L self ''line_value'') = Inr l \<and>
             ByteOffsetToCodepointOffset L l v = Inr c"
    by (auto simp: setitem_start_column SetCompletionStartColumn_result
        split: prod.splits sum.splits)
next
  assume "fst (setitem L self ''start_codepoint'' v) = Inr ()"
  then show "\<exists>l c. fst (getitem L self ''line_value'') = Inr l \<and>
             CodepointOffsetToByteOffset L l v = Inr c"
    by (auto simp: setitem_start_codepoint SetCompletionStartCodepoint_result
        split: prod.splits sum.splits)
qed

theorem setters_keep_start_fields_consistent_witness:
  "(let s' = snd (setitem ascii_lib example_view_after_query ''start_column'' (VInt 3)) in
      fst (setitem ascii_lib example_view_after_query ''start_column'' (VInt 3)) = Inr () \<and>
      cached_computed s' ''start_column'' = Some (VInt 3) \<and>
      cached_computed s' ''start_codepoint'' = Some (VInt 3) \<and>
      cached_computed s' ''query'' = None \<and>
      getitem ascii_lib s' ''start_codepoint'' = (Inr (VInt 3), s')) \<and>
   (let s' = snd (setitem ascii_lib example_view_after_query ''start_codepoint'' (VInt 2)) in
      fst (setitem ascii_lib example_view_after_query ''start_codepoint'' (VInt 2)) = Inr () \<and>
      cached_computed s' ''start_codepoint'' = Some (VInt 2) \<and>
      cached_computed s' ''start_column'' = Some (VInt 2) \<and>
      cached_computed s' ''query'' = None \<and>
      getitem ascii_lib s' ''start_column'' = (Inr (VInt 2), s'))"
proof -
  have line: "fst (getitem ascii_lib example_view_after_query ''line_value'') = Inr (VStr ''foo.bar'')"
    by (simp add: getitem_line_value CurrentLine_def request_item_def example_view_after_query_def
        example_view_def example_request_def example_file_def ascii_lib_def py_index_def)
  have b2c: "ByteOffsetToCodepointOffset ascii_lib (VStr ''foo.bar'') (VInt 3) = Inr (VInt 3)"
    by (simp add: ascii_lib_def py_slice_def slice_bound_def)
  have c2b: "CodepointOffsetToByteOffset ascii_lib (VStr ''foo.bar'') (VInt 2) = Inr (VInt 2)"
    by (simp add: ascii_lib_def py_slice_def slice_bound_def)
  show ?thesis
    using setters_keep_start_fields_consistent [of ascii_lib example_view_after_query
        "VStr ''foo.bar''" "VInt 3" "VInt 3" "VInt 3"]
      setters_keep_start_fields_consistent [of ascii_lib example_view_after_query
        "VStr ''foo.bar''" "VInt 2" "VInt 2" "VInt 2"]
      line b2c c2b
    by (simp add: Let_def)
qed

section \<open>The start-position algorithm\<close>

lemma CompletionStartCodepoint_spec:
  "ToUnicode L line = Inr line \<Longrightarrow>
   CompletionStartCodepoint L line col ft = spec_start_codepoint L line col ft"
  by (simp add: CompletionStartCodepoint_def spec_start_codepoint_def split: sum.splits)

lemma CompletionStartColumn_spec:
  "ToUnicode L line = Inr line \<Longrightarrow>
   CompletionStartColumn L line col ft = spec_start_column L line col ft"
  by (simp add: CompletionStartColumn_def spec_start_column_def CompletionStartCodepoint_spec
      split: sum.splits)

lemma getitem_start_codepoint:
  assumes "cached_computed self ''start_codepoint'' = None"
    and "getitem L self ''line_value'' = (Inr line, s1)"
    and "getitem L s1 ''column_num'' = (Inr col, s2)"
    and "getitem L s2 ''first_filetype'' = (Inr ft, s3)"
  shows "fst (getitem L self ''start_codepoint'') = CompletionStartCodepoint L line col ft"
  using assms
  by (simp add: getitem_computed [of self "''start_codepoint''" G_GetCompletionStartCodepoint
        "Some S_SetCompletionStartCodepoint"] call_getter.simps
      GetCompletionStartCodepoint.simps split: sum.splits)

lemma getitem_start_column:
  assumes "cached_computed self ''start_column'' = None"
    and "getitem L self ''line_value'' = (Inr line, s1)"
    and "getitem L s1 ''column_num'' = (Inr col, s2)"
    and "getitem L s2 ''first_filetype'' = (Inr ft, s3)"
  shows "fst (getitem L self ''start_column'') = CompletionStartColumn L line col ft"
  using assms
  by (simp add: getitem_computed [of self "''start_column''" G_GetCompletionStartColumn
        "Some S_SetCompletionStartColumn"] call_getter.simps
      GetCompletionStartColumn.simps split: sum.splits)

text \<open>
  Claim C2. For a line on which \<open>ToUnicode\<close> is the identity (the line is text already),
  a byte column and a filetype, \<open>CompletionStartCodepoint\<close> is
  \<open>StartOfLongestIdentifierEndingAtIndex\<close> applied to the line, the code point offset of
  the column less one, and the filetype, plus one; \<open>CompletionStartColumn\<close> is
  \<open>CodepointOffsetToByteOffset\<close> of that result against the same line. Reading
  \<open>start_codepoint\<close> or \<open>start_column\<close> on a wrapper where the key has not been
  overridden or cached returns these for the wrapper's \<open>line_value\<close>, \<open>column_num\<close>
  and \<open>first_filetype\<close>.
\<close>

theorem start_position_algorithm:
  assumes "ToUnicode L line = Inr line"
    and "getitem L self ''line_value'' = (Inr line, s1)"
    and "getitem L s1 ''column_num'' = (Inr col, s2)"
    and "getitem L s2 ''first_filetype'' = (Inr ft, s3)"
  shows "CompletionStartCodepoint L line col ft = spec_start_codepoint L line col ft \<and>
         CompletionStartColumn L line col ft = spec_start_column L line col ft \<and>
         (cached_computed self ''start_codepoint'' = None \<longrightarrow>
            fst (getitem L self ''start_codepoint'') = spec_start_codepoint L line col ft) \<and>
         (cached_computed self ''start_column'' = None \<longrightarrow>
            fst (getitem L self ''start_column'') = spec_start_column L line col ft)"
  using assms
  by (simp add: CompletionStartCodepoint_spec CompletionStartColumn_spec
      getitem_start_codepoint [of self L line s1 col s2 ft s3]
      getitem_start_column [of self L line s1 col s2 ft s3])

theorem start_position_algorithm_witness:
  "fst (getitem ascii_lib example_view ''start_codepoint'') = Inr (VInt 5) \<and>
   fst (getitem ascii_lib example_view ''start_column'') = Inr (VInt 5) \<and>
   spec_start_codepoint ascii_lib (VStr ''foo.bar'') (VInt 8) (VStr ''python'') = Inr (VInt 5) \<and>
   spec_start_column ascii_lib (VStr ''foo.bar'') (VInt 8) (VStr ''python'') = Inr (VInt 5)"
proof -
  let ?s1 = "example_view\<lparr>cached_computed := [''line_value'' \<mapsto> VStr ''foo.bar'']\<rparr>"
  let ?s2 = "example_view\<lparr>cached_computed := [''line_value'' \<mapsto> VStr ''foo.bar'',
               ''filetypes'' \<mapsto> VList [VStr ''python'']]\<rparr>"
  let ?s3 = "example_view\<lparr>cached_computed := [''line_value'' \<mapsto> VStr ''foo.bar'',
               ''filetypes'' \<mapsto> VList [VStr ''python''], ''first_filetype'' \<mapsto> VStr ''python'']\<rparr>"
  have u: "ToUnicode ascii_lib (VStr ''foo.bar'') = Inr (VStr ''foo.bar'')"
    by (simp add: ascii_lib_def)
  have line: "getitem ascii_lib example_view ''line_value'' = (Inr (VStr ''foo.bar''), ?s1)"
    by (simp add: getitem_line_value CurrentLine_def request_item_def example_view_def
        example_request_def example_file_def ascii_lib_def py_index_def)
  have col: "getitem ascii_lib ?s1 ''column_num'' = (Inr (VInt 8), ?s1)"
    by (simp add: getitem_raw request_item_def example_view_def example_request_def)
  have fts: "getitem ascii_lib ?s1 ''filetypes'' = (Inr (VList [VStr ''python'']), ?s2)"
    by (simp add: getitem_filetypes request_item_def example_view_def example_request_def
        example_file_def fun_upd_twist)
  have ft: "getitem ascii_lib ?s1 ''first_filetype'' = (Inr (VStr ''python''), ?s3)"
    using fts
    by (simp add: getitem_first_filetype FirstFiletype.simps py_index_def example_view_def)
  have cp: "spec_start_codepoint ascii_lib (VStr ''foo.bar'') (VInt 8) (VStr ''python'') = Inr (VInt 5)"
    by code_simp
  have bc: "spec_start_column ascii_lib (VStr ''foo.bar'') (VInt 8) (VStr ''python'') = Inr (VInt 5)"
    by code_simp
  have "cached_computed example_view ''start_codepoint'' = None"
    and "cached_computed example_view ''start_column'' = None"
    by (simp_all add: example_view_def)
  with start_position_algorithm [OF u line col ft] cp bc show ?thesis by simp
qed

section \<open>The query\<close>

lemma py_slice_plain:
  assumes "0 \<le> lo" and "0 \<le> hi"
  shows "py_slice xs lo hi = take (nat (hi - lo)) (drop (nat lo) xs)"
proof -
  have d: "nat (hi - lo) = nat hi - nat lo"
    using assms by (simp add: nat_diff_distrib')
  have "take (min (length xs) (nat hi) - min (length xs) (nat lo)) (drop (min (length xs) (nat lo)) xs)
          = take (nat hi - nat lo) (drop (nat lo) xs)"
  proof (cases "nat lo < length xs")
    case True
    then have a: "min (length xs) (nat lo) = nat lo" by simp
    show ?thesis
    proof (cases "nat hi \<le> length xs")
      case True
      with a show ?thesis by simp
    next
      case False
      then have "length (drop (nat lo) xs) \<le> nat hi - nat lo"
        and "length (drop (nat lo) xs) \<le> min (length xs) (nat hi) - nat lo"
        by simp_all
      with a show ?thesis by simp
    qed
  next
    case False
    then show ?thesis by simp
  qed
  with assms d show ?thesis by (simp add: py_slice_def slice_bound_def Let_def)
qed

lemma py_slice_empty:
  assumes "hi \<le> lo" and "0 \<le> hi \<or> lo < 0"
  shows "py_slice xs lo hi = []"
proof -
  have "slice_bound (length xs) hi \<le> slice_bound (length xs) lo"
    using assms by (auto simp: slice_bound_def)
  then show ?thesis by (simp add: py_slice_def Let_def)
qed

lemma getitem_query:
  assumes "cached_computed self ''query'' = None"
    and "getitem L self ''line_value'' = (Inr line, s1)"
    and "getitem L s1 ''start_codepoint'' = (Inr (VInt a), s2)"
    and "getitem L s2 ''column_codepoint'' = (Inr (VInt b), s3)"
  shows "fst (getitem L self ''query'') = getslice line (VInt (a - 1)) (VInt (b - 1))"
  using assms
  by (simp add: getitem_computed [of self "''query''" G_Query None] call_getter.simps
      Query.simps split: sum.splits)

text \<open>
  Claim C3, as stated, fails. The query is a slice whose bounds are
  \<open>start_codepoint - 1\<close> and \<open>column_codepoint - 1\<close>, and a negative bound counts from
  the end of the line. After \<open>start_codepoint\<close> has been overridden with 0 on the line
  \<^verbatim>\<open>foo.bar\<close> the query is \<^verbatim>\<open>r\<close>, the code point before the cursor, and not the
  empty string; and with a cached start offset 1 above a cached cursor offset 0, an
  inverted pair, the query is \<^verbatim>\<open>foo.ba\<close>.
\<close>

theorem query_wraps_counterexample:
  "fst (setitem ascii_lib example_view ''start_codepoint'' (VInt 0)) = Inr () \<and>
   fst (getitem ascii_lib (snd (setitem ascii_lib example_view ''start_codepoint'' (VInt 0)))
          ''start_codepoint'') = Inr (VInt 0) \<and>
   fst (getitem ascii_lib (snd (setitem ascii_lib example_view ''start_codepoint'' (VInt 0)))
          ''query'') = Inr (VStr ''r'') \<and>
   fst (getitem ascii_lib inverted_view ''line_value'') = Inr (VStr ''foo.bar'') \<and>
   fst (getitem ascii_lib inverted_view ''start_codepoint'') = Inr (VInt 1) \<and>
   fst (getitem ascii_lib inverted_view ''column_codepoint'') = Inr (VInt 0) \<and>
   fst (getitem ascii_lib inverted_view ''query'') = Inr (VStr ''foo.ba'')"
  by code_simp

text \<open>
  Claim C3, amended. When the line is text and the two offsets are integers, reading an
  uncached \<open>query\<close> returns the slice of the line with bounds \<open>start_codepoint - 1\<close> and
  \<open>column_codepoint - 1\<close>. For offsets that are both at least 1 this is the substring
  from the 0-based position \<open>start_codepoint - 1\<close> up to, and excluding,
  \<open>column_codepoint - 1\<close>. It is the empty string whenever
  \<open>start_codepoint \<ge> column_codepoint\<close> and either \<open>column_codepoint\<close> is at least 1 or
  \<open>start_codepoint\<close> is at most 0, that is, whenever the two bounds lie on the same side
  of 0.
\<close>

theorem query_is_python_slice:
  assumes "cached_computed self ''query'' = None"
    and "getitem L self ''line_value'' = (Inr (VStr line), s1)"
    and "getitem L s1 ''start_codepoint'' = (Inr (VInt a), s2)"
    and "getitem L s2 ''column_codepoint'' = (Inr (VInt b), s3)"
  shows "fst (getitem L self ''query'') = Inr (VStr (py_slice line (a - 1) (b - 1))) \<and>
         (1 \<le> a \<and> 1 \<le> b \<longrightarrow>
            fst (getitem L self ''query'') = Inr (VStr (take (nat (b - a)) (drop (nat (a - 1)) line)))) \<and>
         (b \<le> a \<and> (1 \<le> b \<or> a \<le> 0) \<longrightarrow> fst (getitem L self ''query'') = Inr (VStr []))"
proof -
  have q: "fst (getitem L self ''query'') = Inr (VStr (py_slice line (a - 1) (b - 1)))"
    using getitem_query [OF assms] by (simp add: slice_of_def)
  have plain: "py_slice line (a - 1) (b - 1) = take (nat (b - a)) (drop (nat (a - 1)) line)"
    if "1 \<le> a" "1 \<le> b"
    using py_slice_plain [of "a - 1" "b - 1" line] that by simp
  have empty: "py_slice line (a - 1) (b - 1) = []" if "b \<le> a" "1 \<le> b \<or> a \<le> 0"
    using py_slice_empty [of "b - 1" "a - 1" line] that by auto
  from q plain empty show ?thesis by simp
qed

theorem query_is_python_slice_witness:
  "fst (getitem ascii_lib example_view ''query'') = Inr (VStr ''bar'') \<and>
   fst (getitem ascii_lib
          (example_view\<lparr>cached_computed := [''start_codepoint'' \<mapsto> VInt 9]\<rparr>) ''query'')
     = Inr (VStr [])"
proof -
  let ?over = "example_view\<lparr>cached_computed := [''start_codepoint'' \<mapsto> VInt 9]\<rparr>"
  let ?o1 = "snd (getitem ascii_lib ?over ''line_value'')"
  let ?o3 = "snd (getitem ascii_lib ?o1 ''column_codepoint'')"
  let ?s1 = "snd (getitem ascii_lib example_view ''line_value'')"
  let ?s2 = "snd (getitem ascii_lib ?s1 ''start_codepoint'')"
  let ?s3 = "snd (getitem ascii_lib ?s2 ''column_codepoint'')"
  have a1: "fst (getitem ascii_lib example_view ''line_value'') = Inr (VStr ''foo.bar'')"
    and a2: "fst (getitem ascii_lib ?s1 ''start_codepoint'') = Inr (VInt 5)"
    and a3: "fst (getitem ascii_lib ?s2 ''column_codepoint'') = Inr (VInt 8)"
    by code_simp+
  have b1: "fst (getitem ascii_lib ?over ''line_value'') = Inr (VStr ''foo.bar'')"
    and b2: "getitem ascii_lib ?o1 ''start_codepoint'' = (Inr (VInt 9), ?o1)"
    and b3: "fst (getitem ascii_lib ?o1 ''column_codepoint'') = Inr (VInt 8)"
      apply code_simp
     apply (rule getitem_cached)
     apply (simp add: getitem_line_value example_view_def split: sum.splits)
    apply code_simp
    done
  have c: "cached_computed example_view ''query'' = None" "cached_computed ?over ''query'' = None"
    by (simp_all add: example_view_def)
  have "fst (getitem ascii_lib example_view ''query'') = Inr (VStr ''bar'')"
    using query_is_python_slice [of example_view ascii_lib "''foo.bar''" ?s1 5 ?s2 8 ?s3]
      c(1) a1 a2 a3
    by (simp add: prod_eq_iff py_slice_def slice_bound_def)
  moreover have "fst (getitem ascii_lib ?over ''query'') = Inr (VStr [])"
    using query_is_python_slice [of ?over ascii_lib "''foo.bar''" ?o1 9 ?o1 8 ?o3]
      c(2) b1 b2 b3
    by (simp add: prod_eq_iff py_slice_def slice_bound_def)
  ultimately show ?thesis by simp
qed

end
